theory Spec2Isabelle
  imports Complex_Main "HOL-Library.AList" "HOL-Library.Multiset"
begin

section \<open>The recommendation route of v0claytools\<close>

text \<open>
  This theory embeds \<^verbatim>\<open>src/app/api/recommend/route.ts\<close>: the \<^verbatim>\<open>POST\<close> handler that
  loads a tool catalog, normalises it, asks a language model for recommendations and
  filters, sorts and gates what the model returned.

  The handler is one function of four inputs, all explicit here: the environment's API
  key, the \<^verbatim>\<open>query\<close> property of the request body, the outcome of fetching the
  catalog, and the language model (a function from the prompt to what
  \<^verbatim>\<open>generateObject\<close> yields). Logging is left out: it has no effect on the response.
\<close>

subsection \<open>JavaScript values and strings\<close>

text \<open>
  A parsed JSON document, together with \<^verbatim>\<open>undefined\<close>, which reading a missing
  property yields. An object lists its own properties in the order in which
  \<^verbatim>\<open>Object.values\<close> enumerates them, each key once (nothing below depends on the keys
  being distinct: a lookup takes the first entry); a number is the exact value of its
  double.
\<close>

datatype jsval =
    JUndefined
  | JNull
  | JBool bool
  | JNum rat
  | JStr string
  | JArr "jsval list"
  | JObj "(string \<times> jsval) list"

text \<open>What a \<^verbatim>\<open>throw\<close> carries: a \<^verbatim>\<open>TypeError\<close> raised by the language or an \<^verbatim>\<open>Error\<close> with its message.\<close>

datatype exn = TypeError | Error string

text \<open>
  Strings are sequences of code units; the model covers the code units below 256
  (Basic Latin and Latin-1 Supplement), on which \<^verbatim>\<open>toLowerCase\<close> works unit by unit.
  \<^verbatim>\<open>trim\<close> removes white space and line terminators: TAB, LF, VT, FF, CR, SP and NBSP
  in this range.
\<close>

definition isWhiteSpace :: "char \<Rightarrow> bool" where
  "isWhiteSpace c \<longleftrightarrow> (of_char c :: nat) \<in> {9, 10, 11, 12, 13, 32, 160}"

definition trim :: "string \<Rightarrow> string" where
  "trim s = rev (dropWhile isWhiteSpace (rev (dropWhile isWhiteSpace s)))"

definition toLowerCase_unit :: "char \<Rightarrow> char" where
  "toLowerCase_unit c =
     (let n = (of_char c :: nat)
      in if (65 \<le> n \<and> n \<le> 90) \<or> (192 \<le> n \<and> n \<le> 222 \<and> n \<noteq> 215)
         then char_of (n + 32) else c)"

definition toLowerCase :: "string \<Rightarrow> string" where
  "toLowerCase s = map toLowerCase_unit s"

text \<open>\<^verbatim>\<open>s.split(",")\<close>: the fragments between commas, so one more than there are commas.\<close>

fun split_comma :: "string \<Rightarrow> string list" where
  "split_comma [] = [[]]"
| "split_comma (c # cs) =
     (if c = CHR '','' then [] # split_comma cs
      else (case split_comma cs of [] \<Rightarrow> [[c]] | w # ws \<Rightarrow> (c # w) # ws))"

text \<open>\<^verbatim>\<open>xs.join(sep)\<close>.\<close>

fun join :: "string \<Rightarrow> string list \<Rightarrow> string" where
  "join sep [] = []"
| "join sep [x] = x"
| "join sep (x # y # ys) = x @ sep @ join sep (y # ys)"

text \<open>A natural number in a template literal: its decimal digits.\<close>

fun decimal :: "nat \<Rightarrow> string" where
  "decimal n =
     (if n < 10 then [char_of (48 + n)]
      else decimal (n div 10) @ [char_of (48 + n mod 10)])"

declare decimal.simps [simp del]

text \<open>Truthiness, \<^verbatim>\<open>a || b\<close> and \<^verbatim>\<open>Array.isArray\<close>.\<close>

fun truthy :: "jsval \<Rightarrow> bool" where
  "truthy JUndefined = False"
| "truthy JNull = False"
| "truthy (JBool b) = b"
| "truthy (JNum n) = (n \<noteq> 0)"
| "truthy (JStr s) = (s \<noteq> [])"
| "truthy (JArr xs) = True"
| "truthy (JObj ps) = True"

definition js_or :: "jsval \<Rightarrow> jsval \<Rightarrow> jsval" where
  "js_or a b = (if truthy a then a else b)"

fun isArray :: "jsval \<Rightarrow> bool" where
  "isArray (JArr xs) = True"
| "isArray v = False"

fun elements :: "jsval \<Rightarrow> jsval list" where
  "elements (JArr xs) = xs"
| "elements v = []"

text \<open>
  Reading a property of a value that is neither \<^verbatim>\<open>null\<close> nor \<^verbatim>\<open>undefined\<close>. The
  handler reads only a fixed set of keys (\<^verbatim>\<open>tools\<close>, \<^verbatim>\<open>data\<close> and the field aliases),
  none of which a string, number, boolean or array has, so those all give
  \<^verbatim>\<open>undefined\<close>.
\<close>

fun get_prop :: "jsval \<Rightarrow> string \<Rightarrow> jsval" where
  "get_prop (JObj ps) k = (case map_of ps k of None \<Rightarrow> JUndefined | Some v \<Rightarrow> v)"
| "get_prop v k = JUndefined"

text \<open>Reading a property of \<^verbatim>\<open>null\<close> or \<^verbatim>\<open>undefined\<close> throws.\<close>

fun nullish :: "jsval \<Rightarrow> bool" where
  "nullish JUndefined = True"
| "nullish JNull = True"
| "nullish v = False"

text \<open>\<^verbatim>\<open>Object.values\<close> (and \<^verbatim>\<open>Object.keys\<close>) throw on \<^verbatim>\<open>null\<close> and \<^verbatim>\<open>undefined\<close>.\<close>

fun Object_values :: "jsval \<Rightarrow> exn + jsval list" where
  "Object_values JUndefined = Inl TypeError"
| "Object_values JNull = Inl TypeError"
| "Object_values (JBool b) = Inr []"
| "Object_values (JNum n) = Inr []"
| "Object_values (JStr s) = Inr (map (\<lambda>c. JStr [c]) s)"
| "Object_values (JArr xs) = Inr xs"
| "Object_values (JObj ps) = Inr (map snd ps)"

subsection \<open>Step 3: loading the raw tool list\<close>

text \<open>
  What \<^verbatim>\<open>fetch\<close> gives: a network failure, or a response with its \<^verbatim>\<open>ok\<close> flag and
  the body parsed by \<^verbatim>\<open>res.json()\<close> (\<open>None\<close> when the body is not JSON).
\<close>

datatype fetch_result = NetworkError | HttpResponse bool "jsval option"

text \<open>Lines 47 to 62: the array the handler takes from the document.\<close>

definition find_rawTools :: "jsval \<Rightarrow> exn + jsval list" where
  "find_rawTools json =
     (case Object_values json of
        Inl e \<Rightarrow> Inl e
      | Inr vals \<Rightarrow>
          if isArray json then Inr (elements json)
          else if truthy (get_prop json ''tools'') \<and> isArray (get_prop json ''tools'')
            then Inr (elements (get_prop json ''tools''))
          else if truthy (get_prop json ''data'') \<and> isArray (get_prop json ''data'')
            then Inr (elements (get_prop json ''data''))
          else (case List.find isArray vals of
                  None \<Rightarrow> Inr []
                | Some arrayValue \<Rightarrow> Inr (elements arrayValue)))"

text \<open>Lines 38 to 71, the body of the \<^verbatim>\<open>try\<close> block.\<close>

text \<open>
  The messages of the first three errors stand for the ones the platform gives; the
  \<^verbatim>\<open>catch\<close> of line 72 treats every exception alike.
\<close>

definition load_rawTools :: "fetch_result \<Rightarrow> exn + jsval list" where
  "load_rawTools fetched =
     (case fetched of
        NetworkError \<Rightarrow> Inl (Error ''fetch failed'')
      | HttpResponse ok body \<Rightarrow>
          if \<not> ok then Inl (Error ''HTTP'')
          else (case body of
                  None \<Rightarrow> Inl (Error ''Unexpected token'')
                | Some json \<Rightarrow>
                    (case find_rawTools json of
                       Inl e \<Rightarrow> Inl e
                     | Inr rawTools \<Rightarrow>
                         if rawTools = [] then Inl (Error ''No tools array found in JSON'')
                         else Inr rawTools)))"

subsection \<open>Step 4: normalising the tools and building the lookup map\<close>

record tool =
  name :: string
  description :: jsval
  website :: jsval
  category :: string
  use_cases :: "string list"
  integration_difficulty :: string
  pricing_model :: string
  clay_integration :: jsval

text \<open>
  The three collections the loop fills. \<open>toolMap\<close> is the \<^verbatim>\<open>Map\<close>: its entries in
  insertion order, one per key; \<^verbatim>\<open>set\<close> on a key already there replaces the value in
  place, which is \<^const>\<open>AList.update\<close>, \<^verbatim>\<open>get\<close> is \<^const>\<open>map_of\<close> and \<^verbatim>\<open>size\<close> is
  \<^const>\<open>length\<close>.
\<close>

record catalog =
  tools :: "tool list"
  toolMap :: "(string \<times> tool) list"
  toolNames :: "string list"

definition raw_name :: "jsval \<Rightarrow> jsval" where
  "raw_name rawTool =
     js_or (js_or (js_or (get_prop rawTool ''Name Of Tool'') (get_prop rawTool ''name''))
                  (get_prop rawTool ''Name''))
           (get_prop rawTool ''title'')"

definition raw_description :: "jsval \<Rightarrow> jsval" where
  "raw_description rawTool =
     js_or (js_or (js_or (get_prop rawTool ''Description'') (get_prop rawTool ''description''))
                  (get_prop rawTool ''desc''))
           (JStr [])"

definition raw_url :: "jsval \<Rightarrow> jsval" where
  "raw_url rawTool =
     js_or (js_or (js_or (get_prop rawTool ''Url'') (get_prop rawTool ''url''))
                  (get_prop rawTool ''website''))
           (JStr [])"

definition raw_gtmUseCases :: "jsval \<Rightarrow> jsval" where
  "raw_gtmUseCases rawTool =
     js_or (js_or (js_or (get_prop rawTool ''GTM Use Cases'') (get_prop rawTool ''use_cases''))
                  (get_prop rawTool ''useCases''))
           (JStr [])"

definition raw_clayIntegration :: "jsval \<Rightarrow> jsval" where
  "raw_clayIntegration rawTool =
     js_or (js_or (get_prop rawTool ''Clay Integration Overview'') (get_prop rawTool ''integration''))
           (JStr [])"

text \<open>Line 90: \<^verbatim>\<open>name && typeof name === "string" && name.trim()\<close>.\<close>

fun valid_name :: "jsval \<Rightarrow> bool" where
  "valid_name (JStr s) = (s \<noteq> [] \<and> trim s \<noteq> [])"
| "valid_name v = False"

fun string_of :: "jsval \<Rightarrow> string" where
  "string_of (JStr s) = s"
| "string_of v = []"

text \<open>
  Line 96: \<^verbatim>\<open>gtmUseCases ? gtmUseCases.split(",").map((s) => s.trim()) : []\<close>. A truthy
  value that is not a string has no \<^verbatim>\<open>split\<close> method, and calling it throws.
\<close>

fun split_use_cases :: "jsval \<Rightarrow> exn + string list" where
  "split_use_cases (JStr s) = (if s \<noteq> [] then Inr (map trim (split_comma s)) else Inr [])"
| "split_use_cases v = (if truthy v then Inl TypeError else Inr [])"

text \<open>
  Lines 84 to 100 for one element of \<^verbatim>\<open>rawTools\<close>: throws, or skips the element
  (\<open>None\<close>), or yields its normalised tool.
\<close>

definition normalizedTool :: "jsval \<Rightarrow> exn + tool option" where
  "normalizedTool rawTool =
     (if nullish rawTool then Inl TypeError
      else if valid_name (raw_name rawTool) then
        (case split_use_cases (raw_gtmUseCases rawTool) of
           Inl e \<Rightarrow> Inl e
         | Inr ucs \<Rightarrow>
             Inr (Some \<lparr> name = trim (string_of (raw_name rawTool)),
                         description = raw_description rawTool,
                         website = raw_url rawTool,
                         category = ''Clay Integration'',
                         use_cases = ucs,
                         integration_difficulty = ''Medium'',
                         pricing_model = ''Varies'',
                         clay_integration = raw_clayIntegration rawTool \<rparr>))
      else Inr None)"

text \<open>Lines 102 to 104.\<close>

definition push_tool :: "tool \<Rightarrow> catalog \<Rightarrow> catalog" where
  "push_tool t st =
     \<lparr> tools = tools st @ [t],
       toolMap = AList.update (toLowerCase (name t)) t (toolMap st),
       toolNames = toolNames st @ [name t] \<rparr>"

text \<open>The \<^verbatim>\<open>forEach\<close> of line 82; an exception in the callback ends the loop.\<close>

fun forEach_rawTools :: "jsval list \<Rightarrow> catalog \<Rightarrow> exn + catalog" where
  "forEach_rawTools [] st = Inr st"
| "forEach_rawTools (rawTool # rest) st =
     (case normalizedTool rawTool of
        Inl e \<Rightarrow> Inl e
      | Inr None \<Rightarrow> forEach_rawTools rest st
      | Inr (Some t) \<Rightarrow> forEach_rawTools rest (push_tool t st))"

definition empty_catalog :: catalog where
  "empty_catalog = \<lparr> tools = [], toolMap = [], toolNames = [] \<rparr>"

definition normalize_tools :: "jsval list \<Rightarrow> exn + catalog" where
  "normalize_tools rawTools = forEach_rawTools rawTools empty_catalog"

subsection \<open>Step 5: the prompt and the language model\<close>

text \<open>
  One object of the model's answer, as \<^verbatim>\<open>RecommendationSchema\<close> types it, and one
  recommendation of the response. Both carry a score and a reasoning.
\<close>

record scored =
  relevance_score :: rat
  reasoning :: string

record raw_recommendation = scored +
  tool_name :: string

record recommendation = scored +
  tool :: tool

text \<open>\<^verbatim>\<open>z.number().min(0).max(1)\<close>, the one constraint of the schema beyond the types.\<close>

definition RecommendationSchema :: "raw_recommendation list \<Rightarrow> bool" where
  "RecommendationSchema recs = list_all (\<lambda>r. 0 \<le> relevance_score r \<and> relevance_score r \<le> 1) recs"

text \<open>What the language model gives for a prompt: a failure of the call, or a list of objects.\<close>

datatype generated = GenerateFailed | Generated "raw_recommendation list"

definition newline :: string where
  "newline = [CHR 0x0A]"

definition dquote :: string where
  "dquote = [CHR 0x22]"

text \<open>Line 132: the numbered list of tool names.\<close>

definition numbered_names :: "string list \<Rightarrow> string list" where
  "numbered_names names = map (\<lambda>(i, n). decimal (i + 1) @ ''. '' @ n) (enumerate 0 names)"

text \<open>
  Line 135. A description that is not a string is rendered by the template literal's
  string conversion, which is taken as a parameter.
\<close>

definition tool_details :: "(jsval \<Rightarrow> string) \<Rightarrow> tool list \<Rightarrow> string list" where
  "tool_details toString ts = map (\<lambda>t. ''- '' @ name t @ '': '' @ toString (description t)) ts"

definition prompt :: "(jsval \<Rightarrow> string) \<Rightarrow> string \<Rightarrow> catalog \<Rightarrow> string" where
  "prompt toString query st =
     newline
     @ ''You are a Clay workflow consultant helping users find the right tools.'' @ newline
     @ newline
     @ ''User request: '' @ dquote @ trim query @ dquote @ newline
     @ newline
     @ ''You MUST ONLY recommend tools from this exact list. Use the EXACT tool names as they appear:'' @ newline
     @ newline
     @ join newline (numbered_names (toolNames st)) @ newline
     @ newline
     @ ''Tool details for context:'' @ newline
     @ join newline (tool_details toString (tools st)) @ newline
     @ newline
     @ ''RULES:'' @ newline
     @ ''1. ONLY use tool names from the numbered list above'' @ newline
     @ ''2. Recommend 3-5 most relevant tools'' @ newline
     @ ''3. Calculate relevance score 0-1 based on how well each tool matches the user's needs'' @ newline
     @ ''4. Provide clear reasoning for each recommendation'' @ newline
     @ ''5. Use the EXACT tool name as it appears in the list'' @ newline
     @ newline
     @ ''Analyze the user's request and recommend the most relevant tools.'' @ newline"

text \<open>
  \<^verbatim>\<open>generateObject\<close> with the schema: it throws when the call fails and when the answer
  violates the schema.
\<close>

definition generateObject :: "(string \<Rightarrow> generated) \<Rightarrow> string \<Rightarrow> exn + raw_recommendation list" where
  "generateObject model p =
     (case model p of
        GenerateFailed \<Rightarrow> Inl (Error ''generateObject failed'')
      | Generated recs \<Rightarrow>
          if RecommendationSchema recs then Inr recs
          else Inl (Error ''response did not match schema''))"

subsection \<open>Step 6: filtering, sorting and the relevance gate\<close>

text \<open>Lines 152 to 174, the callback of \<^verbatim>\<open>map\<close>: \<open>None\<close> is the \<^verbatim>\<open>null\<close> it returns.\<close>

definition validate :: "(string \<times> tool) list \<Rightarrow> raw_recommendation \<Rightarrow> recommendation option" where
  "validate tm r =
     (if tool_name r = [] \<or> tool_name r = ''undefined'' then None
      else (case map_of tm (toLowerCase (tool_name r)) of
              None \<Rightarrow> None
            | Some matchedTool \<Rightarrow>
                Some \<lparr> relevance_score = relevance_score r,
                       reasoning = reasoning r,
                       tool = matchedTool \<rparr>))"

text \<open>
  \<^verbatim>\<open>Array.prototype.sort\<close> with a comparator: a stable sort, here by insertion. An
  element goes before the first one that the comparator does not put ahead of it.
\<close>

fun insert_by :: "('a \<Rightarrow> 'a \<Rightarrow> rat) \<Rightarrow> 'a \<Rightarrow> 'a list \<Rightarrow> 'a list" where
  "insert_by cmp x [] = [x]"
| "insert_by cmp x (y # ys) =
     (if cmp x y \<le> 0 then x # y # ys else y # insert_by cmp x ys)"

definition Array_sort :: "('a \<Rightarrow> 'a \<Rightarrow> rat) \<Rightarrow> 'a list \<Rightarrow> 'a list" where
  "Array_sort cmp xs = foldr (insert_by cmp) xs []"

text \<open>
  Line 176: \<^verbatim>\<open>(a, b) => b.relevance_score - a.relevance_score\<close>. The difference of two
  doubles has the sign of the exact difference, which is all that sorting reads.
\<close>

definition by_relevance :: "recommendation \<Rightarrow> recommendation \<Rightarrow> rat" where
  "by_relevance a b = relevance_score b - relevance_score a"

definition validRecommendations :: "(string \<times> tool) list \<Rightarrow> raw_recommendation list \<Rightarrow> recommendation list" where
  "validRecommendations tm recs = Array_sort by_relevance (List.map_filter (validate tm) recs)"

text \<open>Line 180: the double written \<^verbatim>\<open>0.3\<close>, which is 5404319552844595 / 2^54.\<close>

definition MIN_RELEVANCE :: rat where
  "MIN_RELEVANCE = 5404319552844595 / 18014398509481984"

definition hasStrongMatch :: "recommendation list \<Rightarrow> bool" where
  "hasStrongMatch valid = list_ex (\<lambda>r. MIN_RELEVANCE \<le> relevance_score r) valid"

subsection \<open>The handler\<close>

text \<open>
  What a call of \<^verbatim>\<open>POST\<close> ends in: a JSON body with \<^verbatim>\<open>error\<close> and a status, a body with
  \<^verbatim>\<open>message\<close>, a body with \<^verbatim>\<open>recommendations\<close>, or an exception that leaves the
  handler uncaught.
\<close>

datatype response =
    Json_error string nat
  | Json_message string
  | Json_recommendations "recommendation list"
  | Uncaught exn

definition no_match_message :: string where
  "no_match_message =
     ''Sorry we couldn't recommend a tool for this use case. You can submit your use case to tanay@claybootcamp.com or check out the whole list of tools at https://remarkable-lily-32f8dd.netlify.app/''"

text \<open>Lines 180 to 192.\<close>

definition relevance_gate :: "recommendation list \<Rightarrow> response" where
  "relevance_gate valid =
     (if valid = [] \<or> \<not> hasStrongMatch valid then Json_message no_match_message
      else Json_recommendations valid)"

text \<open>Lines 119 to 196: the \<^verbatim>\<open>try\<close> block of step 5 and its \<^verbatim>\<open>catch\<close>.\<close>

definition recommend :: "(jsval \<Rightarrow> string) \<Rightarrow> (string \<Rightarrow> generated) \<Rightarrow> string \<Rightarrow> catalog \<Rightarrow> response" where
  "recommend toString model query st =
     (case generateObject model (prompt toString query st) of
        Inl aiError \<Rightarrow> Json_error ''AI processing failed'' 500
      | Inr recs \<Rightarrow> relevance_gate (validRecommendations (toolMap st) recs))"

text \<open>Line 22: the key is missing when it is not set or is the empty string.\<close>

fun key_present :: "string option \<Rightarrow> bool" where
  "key_present None = False"
| "key_present (Some k) = (k \<noteq> [])"

text \<open>Line 31: \<^verbatim>\<open>!query || typeof query !== "string" || !query.trim()\<close> negated.\<close>

fun valid_query :: "jsval \<Rightarrow> bool" where
  "valid_query (JStr s) = (s \<noteq> [] \<and> trim s \<noteq> [])"
| "valid_query v = False"

definition POST :: "(jsval \<Rightarrow> string) \<Rightarrow> string option \<Rightarrow> jsval \<Rightarrow> fetch_result \<Rightarrow> (string \<Rightarrow> generated) \<Rightarrow> response" where
  "POST toString key query fetched model =
     (if \<not> key_present key then Json_error ''OPENAI_API_KEY is missing.'' 500
      else if \<not> valid_query query then Json_error ''Missing or empty query.'' 400
      else (case load_rawTools fetched of
              Inl e \<Rightarrow> Json_error ''Failed to load tools list.'' 500
            | Inr rawTools \<Rightarrow>
                (case normalize_tools rawTools of
                   Inl e \<Rightarrow> Uncaught e
                 | Inr st \<Rightarrow>
                     if tools st = [] then Json_error ''No valid tools found in the data'' 500
                     else recommend toString model (string_of query) st)))"

subsection \<open>Notions the properties are stated with\<close>

text \<open>
  These are not in the source. \<open>descending\<close> says that a list is ordered by falling
  score; \<open>matches\<close> is the test a model's object passes in \<open>validate\<close>; \<open>tool_of\<close>
  and \<open>kept\<close> give the tools the loop pushes; \<open>key_of\<close> is the key a tool is stored
  under and \<open>set_all\<close> the map after storing a list of tools.
\<close>

definition descending :: "recommendation list \<Rightarrow> bool" where
  "descending rs = sorted_wrt (\<lambda>a b. relevance_score b \<le> relevance_score a) rs"

definition matches :: "(string \<times> tool) list \<Rightarrow> raw_recommendation \<Rightarrow> bool" where
  "matches tm r \<longleftrightarrow>
     tool_name r \<noteq> [] \<and> tool_name r \<noteq> ''undefined'' \<and> map_of tm (toLowerCase (tool_name r)) \<noteq> None"

definition tool_of :: "jsval \<Rightarrow> tool option" where
  "tool_of rawTool = (case normalizedTool rawTool of Inl e \<Rightarrow> None | Inr x \<Rightarrow> x)"

definition kept :: "jsval list \<Rightarrow> tool list" where
  "kept rawTools = List.map_filter tool_of rawTools"

definition key_of :: "tool \<Rightarrow> string" where
  "key_of t = toLowerCase (name t)"

definition set_all :: "tool list \<Rightarrow> (string \<times> tool) list \<Rightarrow> (string \<times> tool) list" where
  "set_all ts al = fold (\<lambda>t. AList.update (key_of t) t) ts al"

subsection \<open>Example requests\<close>

text \<open>
  Concrete inputs on which the properties below are instantiated. The first catalog sits
  under the \<^verbatim>\<open>tools\<close> key and has two named records and one without a name; the model
  answers it with a weak match, a strong match and an invented tool (\<open>example_recs\<close>),
  with a weak match and an invented tool only (\<open>weak_recs\<close>), or with a catalog name
  followed by a space (\<open>spaced_recs\<close>). The second catalog has two records whose names
  differ in letter case and white space only. The last two hold a record whose
  \<^verbatim>\<open>use_cases\<close> is an array, and a \<^verbatim>\<open>null\<close> element.
\<close>

definition acme_tool :: tool where
  "acme_tool = \<lparr> name = ''Acme Tool'', description = JStr ''bulk email verification'',
       website = JStr [], category = ''Clay Integration'', use_cases = [''email'', ''sales''],
       integration_difficulty = ''Medium'', pricing_model = ''Varies'',
       clay_integration = JStr [] \<rparr>"

definition beta_tool :: tool where
  "beta_tool = \<lparr> name = ''Beta'', description = JStr [],
       website = JStr ''https://beta.example'', category = ''Clay Integration'', use_cases = [],
       integration_difficulty = ''Medium'', pricing_model = ''Varies'',
       clay_integration = JStr [] \<rparr>"

definition example_rawTools :: "jsval list" where
  "example_rawTools =
     [JObj [(''Name Of Tool'', JStr ''  Acme Tool ''), (''Description'', JStr ''bulk email verification''),
            (''GTM Use Cases'', JStr ''email, sales'')],
      JObj [(''id'', JNum 7)],
      JObj [(''title'', JStr ''Beta''), (''url'', JStr ''https://beta.example'')]]"

definition example_fetched :: fetch_result where
  "example_fetched = HttpResponse True (Some (JObj [(''count'', JNum 3), (''tools'', JArr example_rawTools)]))"

definition example_recs :: "raw_recommendation list" where
  "example_recs =
     [\<lparr> relevance_score = 1 / 5, reasoning = ''weak'', tool_name = ''beta'' \<rparr>,
      \<lparr> relevance_score = 23 / 25, reasoning = ''strong'', tool_name = ''ACME TOOL'' \<rparr>,
      \<lparr> relevance_score = 1 / 2, reasoning = ''made up'', tool_name = ''Totally Made Up Tool'' \<rparr>]"

definition example_model :: "string \<Rightarrow> generated" where
  "example_model p = Generated example_recs"

definition example_out :: "recommendation list" where
  "example_out =
     [\<lparr> relevance_score = 23 / 25, reasoning = ''strong'', tool = acme_tool \<rparr>,
      \<lparr> relevance_score = 1 / 5, reasoning = ''weak'', tool = beta_tool \<rparr>]"

definition example_catalog :: catalog where
  "example_catalog =
     \<lparr> tools = [acme_tool, beta_tool],
       toolMap = [(''acme tool'', acme_tool), (''beta'', beta_tool)],
       toolNames = [''Acme Tool'', ''Beta''] \<rparr>"

definition weak_recs :: "raw_recommendation list" where
  "weak_recs =
     [\<lparr> relevance_score = 1 / 5, reasoning = ''weak'', tool_name = ''beta'' \<rparr>,
      \<lparr> relevance_score = 1 / 2, reasoning = ''made up'', tool_name = ''Totally Made Up Tool'' \<rparr>]"

definition weak_model :: "string \<Rightarrow> generated" where
  "weak_model p = Generated weak_recs"

definition duplicate_rawTools :: "jsval list" where
  "duplicate_rawTools =
     [JObj [(''name'', JStr ''Acme''), (''desc'', JStr ''first'')],
      JObj [(''id'', JNum 7)],
      JObj [(''Name'', JStr '' ACME ''), (''desc'', JStr ''second'')]]"

definition first_acme :: tool where
  "first_acme = \<lparr> name = ''Acme'', description = JStr ''first'',
       website = JStr [], category = ''Clay Integration'', use_cases = [],
       integration_difficulty = ''Medium'', pricing_model = ''Varies'',
       clay_integration = JStr [] \<rparr>"

definition second_acme :: tool where
  "second_acme = \<lparr> name = ''ACME'', description = JStr ''second'',
       website = JStr [], category = ''Clay Integration'', use_cases = [],
       integration_difficulty = ''Medium'', pricing_model = ''Varies'',
       clay_integration = JStr [] \<rparr>"

definition duplicate_catalog :: catalog where
  "duplicate_catalog =
     \<lparr> tools = [first_acme, second_acme],
       toolMap = [(''acme'', second_acme)],
       toolNames = [''Acme'', ''ACME''] \<rparr>"

definition spaced_recs :: "raw_recommendation list" where
  "spaced_recs = [\<lparr> relevance_score = 23 / 25, reasoning = ''strong'', tool_name = ''Acme Tool '' \<rparr>]"

definition spaced_model :: "string \<Rightarrow> generated" where
  "spaced_model p = Generated spaced_recs"

definition array_use_cases_rawTools :: "jsval list" where
  "array_use_cases_rawTools =
     [JObj [(''name'', JStr ''Acme''), (''use_cases'', JArr [JStr ''sales'', JStr ''email''])]]"

definition null_record_rawTools :: "jsval list" where
  "null_record_rawTools = [JObj [(''name'', JStr ''Acme'')], JNull]"

section \<open>Properties of the steps\<close>

subsection \<open>Sorting\<close>

lemma mset_insert_by: "mset (insert_by cmp x ys) = add_mset x (mset ys)"
  by (induction ys) auto

lemma mset_Array_sort: "mset (Array_sort cmp xs) = mset xs"
  unfolding Array_sort_def by (induction xs) (auto simp: mset_insert_by)

lemma set_Array_sort: "set (Array_sort cmp xs) = set xs"
  using mset_Array_sort [of cmp xs] by (metis set_mset_mset)

lemma length_Array_sort: "length (Array_sort cmp xs) = length xs"
  using mset_Array_sort [of cmp xs] by (metis size_mset)

lemma set_insert_by: "set (insert_by cmp x ys) = insert x (set ys)"
  by (induction ys) auto

lemma descending_insert_by:
  "descending ys \<Longrightarrow> descending (insert_by by_relevance x ys)"
  unfolding descending_def
  by (induction ys) (auto simp: set_insert_by by_relevance_def)

lemma descending_Array_sort: "descending (Array_sort by_relevance xs)"
proof (induction xs)
  case Nil
  show ?case by (simp add: Array_sort_def descending_def)
next
  case (Cons x xs)
  then show ?case
    using descending_insert_by [of "Array_sort by_relevance xs" x]
    by (simp add: Array_sort_def)
qed

lemma descending_adjacent:
  "descending rs \<Longrightarrow> Suc i < length rs \<Longrightarrow> relevance_score (rs ! Suc i) \<le> relevance_score (rs ! i)"
  unfolding descending_def by (simp add: sorted_wrt_iff_nth_less)

subsection \<open>Validation\<close>

lemma validate_None_iff: "validate tm r = None \<longleftrightarrow> \<not> matches tm r"
  by (auto simp: validate_def matches_def split: option.splits)

lemma validate_SomeD:
  "validate tm r = Some v \<Longrightarrow>
     matches tm r \<and> map_of tm (toLowerCase (tool_name r)) = Some (tool v) \<and>
     relevance_score v = relevance_score r \<and> reasoning v = reasoning r"
  by (auto simp: validate_def matches_def split: option.splits if_splits)

lemma length_map_filter: "length (List.map_filter f xs) = length (filter (\<lambda>x. f x \<noteq> None) xs)"
  by (induction xs) (auto split: option.splits)

lemma set_map_filter: "set (List.map_filter f xs) = {y. \<exists>x\<in>set xs. f x = Some y}"
  by (induction xs) (auto split: option.splits)

lemma length_validRecommendations:
  "length (validRecommendations tm recs) = length (filter (matches tm) recs)"
  by (simp add: validRecommendations_def length_Array_sort length_map_filter validate_None_iff)

lemma set_validRecommendations:
  "set (validRecommendations tm recs) = {v. \<exists>r\<in>set recs. validate tm r = Some v}"
  by (simp add: validRecommendations_def set_Array_sort set_map_filter)

subsection \<open>The handler, stage by stage\<close>

lemma generateObject_InrD:
  "generateObject model p = Inr recs \<Longrightarrow> model p = Generated recs \<and> RecommendationSchema recs"
  by (auto simp: generateObject_def split: generated.splits if_splits)

lemma POST_reaches_gate:
  assumes "key_present key" and "valid_query query"
    and "load_rawTools fetched = Inr rawTools" and "normalize_tools rawTools = Inr st"
    and "tools st \<noteq> []"
    and "generateObject model (prompt toString (string_of query) st) = Inr recs"
  shows "POST toString key query fetched model = relevance_gate (validRecommendations (toolMap st) recs)"
  using assms by (simp add: POST_def recommend_def)

lemma POST_recommendationsD:
  assumes "POST toString key query fetched model = Json_recommendations out"
  shows "\<exists>rawTools st recs.
           key_present key \<and> valid_query query \<and>
           load_rawTools fetched = Inr rawTools \<and> normalize_tools rawTools = Inr st \<and>
           tools st \<noteq> [] \<and>
           generateObject model (prompt toString (string_of query) st) = Inr recs \<and>
           out = validRecommendations (toolMap st) recs \<and> out \<noteq> [] \<and> hasStrongMatch out"
  using assms
  by (auto simp: POST_def recommend_def relevance_gate_def split: if_splits sum.splits)

text \<open>Lines 130 to 135: where the prompt carries the numbered names and the tool details.\<close>

lemma prompt_embeds_lists:
  "\<exists>pre post. prompt toString query st =
     pre @ ''You MUST ONLY recommend tools from this exact list. Use the EXACT tool names as they appear:''
         @ newline @ newline
         @ join newline (numbered_names (toolNames st)) @ newline @ newline
         @ ''Tool details for context:'' @ newline
         @ join newline (tool_details toString (tools st)) @ newline @ post"
proof -
  let ?pre = "newline
     @ ''You are a Clay workflow consultant helping users find the right tools.'' @ newline
     @ newline
     @ ''User request: '' @ dquote @ trim query @ dquote @ newline
     @ newline"
  let ?post = "newline
     @ ''RULES:'' @ newline
     @ ''1. ONLY use tool names from the numbered list above'' @ newline
     @ ''2. Recommend 3-5 most relevant tools'' @ newline
     @ ''3. Calculate relevance score 0-1 based on how well each tool matches the user's needs'' @ newline
     @ ''4. Provide clear reasoning for each recommendation'' @ newline
     @ ''5. Use the EXACT tool name as it appears in the list'' @ newline
     @ newline
     @ ''Analyze the user's request and recommend the most relevant tools.'' @ newline"
  have "prompt toString query st =
     ?pre @ ''You MUST ONLY recommend tools from this exact list. Use the EXACT tool names as they appear:''
         @ newline @ newline
         @ join newline (numbered_names (toolNames st)) @ newline @ newline
         @ ''Tool details for context:'' @ newline
         @ join newline (tool_details toString (tools st)) @ newline @ ?post"
    unfolding prompt_def by (simp only: append_assoc)
  then show ?thesis by blast
qed

subsection \<open>Finding the array\<close>

lemma find_first_array:
  "\<forall>p\<in>set before. \<not> isArray (snd p) \<Longrightarrow>
     List.find isArray (map snd (before @ (k, JArr xs) # after)) = Some (JArr xs)"
  by (induction before) auto

lemma find_no_array:
  "\<forall>p\<in>set ps. \<not> isArray (snd p) \<Longrightarrow> List.find isArray (map snd ps) = None"
  by (induction ps) auto

lemma find_rawTools_no_array:
  assumes "\<not> isArray json" and "\<forall>ps. json = JObj ps \<longrightarrow> (\<forall>p\<in>set ps. \<not> isArray (snd p))"
  shows "find_rawTools json = Inr [] \<or> find_rawTools json = Inl TypeError"
proof (cases json)
  case (JObj ps)
  with assms(2) have no: "\<forall>p\<in>set ps. \<not> isArray (snd p)" by simp
  have "\<not> isArray (get_prop json k)" for k
  proof (cases "map_of ps k")
    case None
    with JObj show ?thesis by simp
  next
    case (Some v)
    then have "(k, v) \<in> set ps" by (rule map_of_SomeD)
    with no have "\<not> isArray v" by auto
    with JObj Some show ?thesis by simp
  qed
  with JObj find_no_array [OF no] show ?thesis
    by (simp add: find_rawTools_def)
next
  case (JStr s)
  have "List.find isArray (map (\<lambda>c. JStr [c]) s) = None"
    by (induction s) auto
  with JStr show ?thesis by (simp add: find_rawTools_def)
qed (use assms(1) in \<open>simp_all add: find_rawTools_def\<close>)

subsection \<open>Normalisation\<close>

lemma kept_append: "kept (xs @ ys) = kept xs @ kept ys"
  by (simp add: kept_def List.map_filter_def)

lemma kept_Cons_Some: "normalizedTool r = Inr (Some t) \<Longrightarrow> kept (r # rs) = t # kept rs"
  by (simp add: kept_def tool_of_def)

lemma kept_Cons_None: "normalizedTool r = Inr None \<Longrightarrow> kept (r # rs) = kept rs"
  by (simp add: kept_def tool_of_def)

lemma normalizedTool_SomeD:
  assumes "normalizedTool r = Inr (Some t)"
  shows "\<not> nullish r" and "valid_name (raw_name r)"
    and "name t = trim (string_of (raw_name r))" and "name t \<noteq> []"
    and "split_use_cases (raw_gtmUseCases r) = Inr (use_cases t)"
proof -
  from assms show "\<not> nullish r" and v: "valid_name (raw_name r)"
    by (auto simp: normalizedTool_def split: if_splits sum.splits)
  from assms show n: "name t = trim (string_of (raw_name r))"
    by (auto simp: normalizedTool_def split: if_splits sum.splits)
  from v n show "name t \<noteq> []"
    by (cases "raw_name r") auto
  from assms show "split_use_cases (raw_gtmUseCases r) = Inr (use_cases t)"
    by (auto simp: normalizedTool_def split: if_splits sum.splits)
qed

lemma normalizedTool_NoneD:
  "normalizedTool r = Inr None \<Longrightarrow> \<not> nullish r \<and> \<not> valid_name (raw_name r)"
  by (auto simp: normalizedTool_def split: if_splits sum.splits)

lemma normalizedTool_invalid_name:
  "\<not> nullish r \<Longrightarrow> \<not> valid_name (raw_name r) \<Longrightarrow> normalizedTool r = Inr None"
  by (simp add: normalizedTool_def)

lemma normalizedTool_throws_iff:
  "(\<exists>e. normalizedTool r = Inl e) \<longleftrightarrow>
     nullish r \<or> (valid_name (raw_name r) \<and> truthy (raw_gtmUseCases r)
                   \<and> (\<forall>s. raw_gtmUseCases r \<noteq> JStr s))"
  by (cases "raw_gtmUseCases r") (auto simp: normalizedTool_def)

lemma use_cases_of_text:
  assumes "normalizedTool r = Inr (Some t)" and "raw_gtmUseCases r = JStr s"
  shows "use_cases t = (if s = [] then [] else map trim (split_comma s))"
  using normalizedTool_SomeD(5) [OF assms(1)] assms(2) by (simp split: if_splits)

lemma use_cases_of_falsy:
  assumes "normalizedTool r = Inr (Some t)" and "\<not> truthy (raw_gtmUseCases r)"
  shows "use_cases t = []"
  using normalizedTool_SomeD(5) [OF assms(1)] assms(2)
  by (cases "raw_gtmUseCases r") (auto split: if_splits)

lemma unnamed_record_skipped:
  assumes "\<not> nullish r" and "\<not> valid_name (raw_name r)"
  shows "forEach_rawTools (xs @ r # ys) st = forEach_rawTools (xs @ ys) st"
proof (induction xs arbitrary: st)
  case Nil
  show ?case by (simp add: normalizedTool_invalid_name [OF assms])
next
  case (Cons x xs)
  then show ?case by (simp split: sum.splits option.splits)
qed

lemma tools_fold_push: "tools (fold push_tool ts st) = tools st @ ts"
  by (induction ts arbitrary: st) (auto simp: push_tool_def)

lemma toolNames_fold_push: "toolNames (fold push_tool ts st) = toolNames st @ map name ts"
  by (induction ts arbitrary: st) (auto simp: push_tool_def)

lemma toolMap_fold_push: "toolMap (fold push_tool ts st) = set_all ts (toolMap st)"
  unfolding set_all_def
  by (induction ts arbitrary: st) (auto simp: push_tool_def key_of_def)

lemma forEach_rawTools_Inr_iff:
  "forEach_rawTools rawTools st = Inr st' \<longleftrightarrow>
     (\<forall>r\<in>set rawTools. \<forall>e. normalizedTool r \<noteq> Inl e) \<and> st' = fold push_tool (kept rawTools) st"
proof (induction rawTools arbitrary: st)
  case Nil
  show ?case by (auto simp: kept_def)
next
  case (Cons r rs)
  show ?case
  proof (cases "normalizedTool r")
    case (Inl e)
    then show ?thesis by auto
  next
    case (Inr x)
    then show ?thesis
      using Cons.IH by (cases x) (auto simp: kept_Cons_Some kept_Cons_None)
  qed
qed

lemma normalize_tools_InrD:
  assumes "normalize_tools rawTools = Inr st"
  shows "tools st = kept rawTools" and "toolNames st = map name (kept rawTools)"
    and "toolMap st = set_all (kept rawTools) []"
    and "\<forall>r\<in>set rawTools. \<forall>e. normalizedTool r \<noteq> Inl e"
  using assms
  by (simp_all add: normalize_tools_def forEach_rawTools_Inr_iff empty_catalog_def
      tools_fold_push toolNames_fold_push toolMap_fold_push)

lemma tool_of_Some_iff: "tool_of r = Some t \<longleftrightarrow> normalizedTool r = Inr (Some t)"
  by (cases "normalizedTool r") (auto simp: tool_of_def)

lemma set_kept: "set (kept rawTools) = {t. \<exists>r\<in>set rawTools. normalizedTool r = Inr (Some t)}"
  by (simp add: kept_def set_map_filter tool_of_Some_iff)

lemma length_kept:
  "\<forall>r\<in>set rawTools. \<forall>e. normalizedTool r \<noteq> Inl e \<Longrightarrow>
     length (kept rawTools) = length (filter (\<lambda>r. valid_name (raw_name r)) rawTools)"
proof (induction rawTools)
  case Nil
  show ?case by (simp add: kept_def)
next
  case (Cons r rs)
  then obtain x where x: "normalizedTool r = Inr x"
    by (cases "normalizedTool r") auto
  show ?case
  proof (cases x)
    case None
    with x Cons show ?thesis
      using normalizedTool_NoneD [of r] by (simp add: kept_Cons_None)
  next
    case (Some t)
    with x Cons show ?thesis
      using normalizedTool_SomeD(2) [of r t] by (simp add: kept_Cons_Some)
  qed
qed

lemma names_kept:
  "\<forall>r\<in>set rawTools. \<forall>e. normalizedTool r \<noteq> Inl e \<Longrightarrow>
     map name (kept rawTools)
       = map (\<lambda>r. trim (string_of (raw_name r))) (filter (\<lambda>r. valid_name (raw_name r)) rawTools)"
proof (induction rawTools)
  case Nil
  show ?case by (simp add: kept_def)
next
  case (Cons r rs)
  then obtain x where x: "normalizedTool r = Inr x"
    by (cases "normalizedTool r") auto
  show ?case
  proof (cases x)
    case None
    with x Cons show ?thesis
      using normalizedTool_NoneD [of r] by (simp add: kept_Cons_None)
  next
    case (Some t)
    with x Cons show ?thesis
      using normalizedTool_SomeD(2,3) [of r t] by (simp add: kept_Cons_Some)
  qed
qed

lemma nth_numbered_names:
  "i < length names \<Longrightarrow> numbered_names names ! i = decimal (i + 1) @ ''. '' @ names ! i"
  by (simp add: numbered_names_def nth_enumerate_eq)

subsection \<open>The lookup map\<close>

lemma map_of_set_all_other:
  "k \<notin> key_of ` set ts \<Longrightarrow> map_of (set_all ts al) k = map_of al k"
  unfolding set_all_def
  by (induction ts arbitrary: al) (auto simp: update_conv')

lemma set_all_append: "set_all (xs @ ys) al = set_all ys (set_all xs al)"
  by (simp add: set_all_def)

lemma set_all_Cons: "set_all (t # ts) al = set_all ts (AList.update (key_of t) t al)"
  by (simp add: set_all_def)

lemma map_of_set_all_last:
  assumes "\<forall>y\<in>set ys. key_of y \<noteq> key_of t"
  shows "map_of (set_all (xs @ t # ys) al) (key_of t) = Some t"
proof -
  have "key_of t \<notin> key_of ` set ys" using assms by auto
  then show ?thesis
    by (simp add: set_all_append set_all_Cons map_of_set_all_other update_conv')
qed

lemma distinct_set_all:
  "distinct (map fst al) \<Longrightarrow> distinct (map fst (set_all ts al))"
  unfolding set_all_def
  by (induction ts arbitrary: al) (auto simp: distinct_update)

lemma keys_set_all: "fst ` set (set_all ts al) = fst ` set al \<union> key_of ` set ts"
  unfolding set_all_def
  by (induction ts arbitrary: al) (auto simp: dom_update)

lemma map_of_set_all_SomeD:
  "map_of (set_all ts al) k = Some t \<Longrightarrow> map_of al k = Some t \<or> (t \<in> set ts \<and> key_of t = k)"
  unfolding set_all_def
proof (induction ts arbitrary: al)
  case Nil
  then show ?case by simp
next
  case (Cons x xs)
  from Cons.IH [of "AList.update (key_of x) x al"] Cons.prems
  show ?case by (auto simp: update_conv' split: if_splits)
qed

lemma length_set_all: "length (set_all ts []) = card (key_of ` set ts)"
proof -
  have "distinct (map fst (set_all ts []))" by (simp add: distinct_set_all)
  then have "length (set_all ts []) = card (set (map fst (set_all ts [])))"
    by (metis distinct_card length_map)
  also have "\<dots> = card (key_of ` set ts)"
    using keys_set_all [of ts "[]"] by simp
  finally show ?thesis .
qed

lemma length_set_all_le: "length (set_all ts []) \<le> length ts"
  unfolding length_set_all
  by (metis card_length length_map set_map)

lemma length_set_all_less:
  "\<not> distinct (map key_of ts) \<Longrightarrow> length (set_all ts []) < length ts"
proof -
  assume nd: "\<not> distinct (map key_of ts)"
  have "card (set (map key_of ts)) \<le> length (map key_of ts)" by (rule card_length)
  moreover have "card (set (map key_of ts)) \<noteq> length (map key_of ts)"
    using nd card_distinct by blast
  ultimately show ?thesis by (simp add: length_set_all)
qed

lemma one_entry_per_key:
  assumes "distinct (map fst al)" and "map_of al k = Some v"
  shows "length (filter (\<lambda>e. fst e = k) al) = 1"
  using assms
proof (induction al)
  case Nil
  then show ?case by simp
next
  case (Cons p ps)
  show ?case
  proof (cases "fst p = k")
    case True
    with Cons.prems have "k \<notin> fst ` set ps" by auto
    then have "filter (\<lambda>e. fst e = k) ps = []" by (auto simp: filter_empty_conv)
    with True show ?thesis by simp
  next
    case False
    with Cons show ?thesis by (cases p) auto
  qed
qed

lemma normalized_names_nonempty:
  assumes "normalize_tools rawTools = Inr st"
  shows "\<forall>t\<in>set (tools st). name t \<noteq> []"
    and "\<forall>e\<in>set (toolMap st). name (snd e) \<noteq> []"
proof -
  note d = normalize_tools_InrD [OF assms]
  show t: "\<forall>t\<in>set (tools st). name t \<noteq> []"
    using normalizedTool_SomeD(4) by (auto simp: d(1) set_kept)
  show "\<forall>e\<in>set (toolMap st). name (snd e) \<noteq> []"
  proof
    fix e assume e: "e \<in> set (toolMap st)"
    have "distinct (map fst (toolMap st))" by (simp add: d(3) distinct_set_all)
    with e have "map_of (toolMap st) (fst e) = Some (snd e)" by simp
    then have "snd e \<in> set (kept rawTools)"
      using map_of_set_all_SomeD [of "kept rawTools" "[]" "fst e" "snd e"] by (simp add: d(3))
    with t show "name (snd e) \<noteq> []" by (simp add: d(1))
  qed
qed

subsection \<open>The example requests, evaluated\<close>

lemma example_load: "load_rawTools example_fetched = Inr example_rawTools"
  by code_simp

lemma example_normalize: "normalize_tools example_rawTools = Inr example_catalog"
  by code_simp

lemma example_generate:
  "generateObject example_model p = Inr example_recs"
  by (simp add: generateObject_def example_model_def example_recs_def RecommendationSchema_def)

lemma example_POST:
  "POST string_of (Some ''sk'') (JStr ''verify email addresses'') example_fetched example_model
     = Json_recommendations example_out"
  by code_simp

lemma example_survivors:
  "List.map_filter (validate (toolMap example_catalog)) example_recs
     = [\<lparr> relevance_score = 1 / 5, reasoning = ''weak'', tool = beta_tool \<rparr>,
        \<lparr> relevance_score = 23 / 25, reasoning = ''strong'', tool = acme_tool \<rparr>]"
  by code_simp

lemma weak_generate: "generateObject weak_model p = Inr weak_recs"
  by (simp add: generateObject_def weak_model_def weak_recs_def RecommendationSchema_def)

lemma weak_survivors:
  "List.map_filter (validate (toolMap example_catalog)) weak_recs
     = [\<lparr> relevance_score = 1 / 5, reasoning = ''weak'', tool = beta_tool \<rparr>]"
  by code_simp

lemma duplicate_normalize: "normalize_tools duplicate_rawTools = Inr duplicate_catalog"
  by code_simp

lemma duplicate_lines:
  "join newline (numbered_names (toolNames duplicate_catalog)) = ''1. Acme'' @ newline @ ''2. ACME''"
  "join newline (tool_details string_of (tools duplicate_catalog))
     = ''- Acme: first'' @ newline @ ''- ACME: second''"
  by code_simp+

section \<open>The claims\<close>

subsection \<open>C1: every returned recommendation references a tool of the catalog\<close>

text \<open>
  Claim C1. Whenever the handler answers with a recommendation list, the catalog was
  loaded and normalised, the model answered, and every entry of the list comes from an
  object of the model's answer whose \<^verbatim>\<open>tool_name\<close> is neither empty nor
  \<^verbatim>\<open>"undefined"\<close> and is found in the lookup map; the entry's tool is the map's value
  there, a tool of the normalised list. Objects that fail the test are left out, so the
  list has as many entries as objects pass it, and never more than the model returned.
\<close>

theorem recommendations_reference_catalog:
  assumes "POST toString key query fetched model = Json_recommendations out"
  shows "\<exists>rawTools st recs.
           load_rawTools fetched = Inr rawTools \<and> normalize_tools rawTools = Inr st \<and>
           model (prompt toString (string_of query) st) = Generated recs \<and>
           length out = length (filter (matches (toolMap st)) recs) \<and>
           length out \<le> length recs \<and>
           (\<forall>v\<in>set out. \<exists>r\<in>set recs.
              matches (toolMap st) r \<and>
              map_of (toolMap st) (toLowerCase (tool_name r)) = Some (tool v) \<and>
              tool v \<in> set (tools st) \<and>
              relevance_score v = relevance_score r \<and> reasoning v = reasoning r)"
proof -
  from POST_recommendationsD [OF assms]
  obtain rawTools and st :: catalog and recs where
    load: "load_rawTools fetched = Inr rawTools" and
    norm: "normalize_tools rawTools = Inr st" and
    gen: "generateObject model (prompt toString (string_of query) st) = Inr recs" and
    out: "out = validRecommendations (toolMap st) recs"
    by blast
  have len: "length out = length (filter (matches (toolMap st)) recs)"
    by (simp add: out length_validRecommendations)
  have each: "\<exists>r\<in>set recs.
      matches (toolMap st) r \<and>
      map_of (toolMap st) (toLowerCase (tool_name r)) = Some (tool v) \<and>
      tool v \<in> set (tools st) \<and>
      relevance_score v = relevance_score r \<and> reasoning v = reasoning r"
    if "v \<in> set out" for v
  proof -
    from that obtain r where r: "r \<in> set recs" and v: "validate (toolMap st) r = Some v"
      by (auto simp: out set_validRecommendations)
    note d = validate_SomeD [OF v]
    from d have "map_of (set_all (kept rawTools) []) (toLowerCase (tool_name r)) = Some (tool v)"
      by (simp add: normalize_tools_InrD(3) [OF norm])
    from map_of_set_all_SomeD [OF this] have "tool v \<in> set (tools st)"
      by (simp add: normalize_tools_InrD(1) [OF norm])
    with r d show ?thesis by blast
  qed
  from load norm generateObject_InrD [OF gen] len each show ?thesis
    by (intro exI [of _ rawTools] exI [of _ st] exI [of _ recs]) simp
qed

theorem recommendations_reference_catalog_witness:
  "POST string_of (Some ''sk'') (JStr ''verify email addresses'') example_fetched example_model
     = Json_recommendations example_out
   \<and> length example_out \<le> length example_recs
   \<and> tool (example_out ! 0) \<in> set [acme_tool, beta_tool]"
proof -
  from recommendations_reference_catalog [OF example_POST]
  obtain rawTools and st :: catalog and recs where
    "load_rawTools example_fetched = Inr rawTools" and "normalize_tools rawTools = Inr st" and
    "example_model (prompt string_of (string_of (JStr ''verify email addresses'')) st) = Generated recs" and
    "length example_out \<le> length recs" and
    "\<forall>v\<in>set example_out. tool v \<in> set (tools st)"
    by blast
  then have "length example_out \<le> length example_recs" and "tool (example_out ! 0) \<in> set [acme_tool, beta_tool]"
    by (simp_all add: example_load example_normalize example_catalog_def example_model_def example_out_def)
  with example_POST show ?thesis by simp
qed

subsection \<open>C2: the lookup lower-cases both sides and trims the catalog side only\<close>

text \<open>
  Claim C2, as the code has it. The keys of the lookup map are the lower-cased trimmed
  names of the records with a valid name. An object of the model's answer is matched
  exactly when its \<^verbatim>\<open>tool_name\<close> is not empty, is not \<^verbatim>\<open>"undefined"\<close> and, lower-cased
  but not trimmed, is one of these keys; the tool it is matched with has the same
  lower-cased name. So a catalog name is found whatever its letter case and whatever
  white space surrounds it in the catalog, and a returned name is found whatever its
  letter case.
\<close>

theorem lookup_lower_cased_not_trimmed:
  assumes "normalize_tools rawTools = Inr st"
  shows "fst ` set (toolMap st)
           = (\<lambda>raw. toLowerCase (trim (string_of (raw_name raw))))
               ` {raw \<in> set rawTools. valid_name (raw_name raw)}
       \<and> (validate (toolMap st) r \<noteq> None \<longleftrightarrow>
            tool_name r \<noteq> [] \<and> tool_name r \<noteq> ''undefined'' \<and>
            toLowerCase (tool_name r) \<in> fst ` set (toolMap st))
       \<and> (\<forall>v. validate (toolMap st) r = Some v \<longrightarrow>
            toLowerCase (name (tool v)) = toLowerCase (tool_name r))"
proof -
  note d = normalize_tools_InrD [OF assms]
  let ?named = "filter (\<lambda>raw. valid_name (raw_name raw)) rawTools"
  have "fst ` set (toolMap st) = set (map toLowerCase (map name (kept rawTools)))"
    using keys_set_all [of "kept rawTools" "[]"] by (auto simp: d(3) key_of_def)
  also have "\<dots> = set (map (\<lambda>raw. toLowerCase (trim (string_of (raw_name raw)))) ?named)"
    by (simp add: names_kept [OF d(4)] comp_def)
  also have "\<dots> = (\<lambda>raw. toLowerCase (trim (string_of (raw_name raw))))
               ` {raw \<in> set rawTools. valid_name (raw_name raw)}"
    by auto
  finally have keys: "fst ` set (toolMap st)
           = (\<lambda>raw. toLowerCase (trim (string_of (raw_name raw))))
               ` {raw \<in> set rawTools. valid_name (raw_name raw)}" .
  have found: "validate (toolMap st) r \<noteq> None \<longleftrightarrow>
            tool_name r \<noteq> [] \<and> tool_name r \<noteq> ''undefined'' \<and>
            toLowerCase (tool_name r) \<in> fst ` set (toolMap st)"
    by (simp add: validate_None_iff matches_def map_of_eq_None_iff)
  have same: "toLowerCase (name (tool v)) = toLowerCase (tool_name r)"
    if "validate (toolMap st) r = Some v" for v
  proof -
    from validate_SomeD [OF that]
    have "map_of (set_all (kept rawTools) []) (toLowerCase (tool_name r)) = Some (tool v)"
      by (simp add: d(3))
    from map_of_set_all_SomeD [OF this] show ?thesis by (simp add: key_of_def)
  qed
  from keys found same show ?thesis by blast
qed

theorem lookup_lower_cased_not_trimmed_witness:
  "normalize_tools example_rawTools = Inr example_catalog
   \<and> raw_name (example_rawTools ! 0) = JStr ''  Acme Tool ''
   \<and> map_of (toolMap example_catalog) ''acme tool'' = Some acme_tool
   \<and> validate (toolMap example_catalog)
        \<lparr> relevance_score = 23 / 25, reasoning = ''strong'', tool_name = ''ACME TOOL'' \<rparr>
       = Some \<lparr> relevance_score = 23 / 25, reasoning = ''strong'', tool = acme_tool \<rparr>
   \<and> toLowerCase (name acme_tool) = toLowerCase ''ACME TOOL''"
proof -
  let ?r = "\<lparr> relevance_score = 23 / 25, reasoning = ''strong'', tool_name = ''ACME TOOL'' \<rparr>"
  let ?v = "\<lparr> relevance_score = 23 / 25, reasoning = ''strong'', tool = acme_tool \<rparr>"
  have n: "raw_name (example_rawTools ! 0) = JStr ''  Acme Tool ''" by code_simp
  have m: "map_of (toolMap example_catalog) ''acme tool'' = Some acme_tool"
    by (simp add: example_catalog_def)
  have v: "validate (toolMap example_catalog) ?r = Some ?v" by code_simp
  from lookup_lower_cased_not_trimmed [OF example_normalize, of ?r] v
  have "toLowerCase (name (tool ?v)) = toLowerCase (tool_name ?r)" by blast
  then have "toLowerCase (name acme_tool) = toLowerCase ''ACME TOOL''" by simp
  with n m v example_normalize show ?thesis by simp
qed

text \<open>
  The claim as written also has the returned name trimmed. It is not: the catalog holds
  \<^verbatim>\<open>"  Acme Tool "\<close> under the key \<^verbatim>\<open>"acme tool"\<close>, the model returns
  \<^verbatim>\<open>"Acme Tool "\<close>, whose lower-cased trimmed form is that key, and the object is
  dropped, which here leaves the request with the no-match message.
\<close>

theorem returned_name_not_trimmed_counterexample:
  "normalize_tools example_rawTools = Inr example_catalog
   \<and> map_of (toolMap example_catalog) (toLowerCase (trim ''Acme Tool '')) = Some acme_tool
   \<and> validate (toolMap example_catalog)
        \<lparr> relevance_score = 23 / 25, reasoning = ''strong'', tool_name = ''Acme Tool '' \<rparr> = None
   \<and> POST string_of (Some ''sk'') (JStr ''verify email addresses'') example_fetched spaced_model
        = Json_message no_match_message"
proof -
  have "map_of (toolMap example_catalog) (toLowerCase (trim ''Acme Tool '')) = Some acme_tool"
    by code_simp
  moreover have "validate (toolMap example_catalog)
        \<lparr> relevance_score = 23 / 25, reasoning = ''strong'', tool_name = ''Acme Tool '' \<rparr> = None"
    by code_simp
  moreover have "POST string_of (Some ''sk'') (JStr ''verify email addresses'') example_fetched spaced_model
        = Json_message no_match_message"
    by code_simp
  ultimately show ?thesis using example_normalize by simp
qed

subsection \<open>C3: the relevance gate answers with the fixed message\<close>

text \<open>
  Claim C3. When the request reaches the model and the model answers, and the list of
  objects that survive validation is empty or holds no entry whose score reaches
  \<open>MIN_RELEVANCE\<close>, the handler answers with the fixed guidance message: a
  \<^verbatim>\<open>message\<close> body, neither an \<^verbatim>\<open>error\<close> body nor a recommendation list.
\<close>

theorem no_confident_match_message:
  assumes "key_present key" and "valid_query query"
    and "load_rawTools fetched = Inr rawTools" and "normalize_tools rawTools = Inr st"
    and "tools st \<noteq> []"
    and "generateObject model (prompt toString (string_of query) st) = Inr recs"
    and "List.map_filter (validate (toolMap st)) recs = [] \<or>
         \<not> (\<exists>v\<in>set (List.map_filter (validate (toolMap st)) recs). MIN_RELEVANCE \<le> relevance_score v)"
  shows "POST toString key query fetched model = Json_message no_match_message"
proof -
  let ?survivors = "List.map_filter (validate (toolMap st)) recs"
  let ?valid = "validRecommendations (toolMap st) recs"
  have set_eq: "set ?valid = set ?survivors"
    by (simp add: validRecommendations_def set_Array_sort)
  from set_eq have "?valid = [] \<longleftrightarrow> ?survivors = []"
    by (metis set_empty)
  with assms(7) have "?valid = [] \<or> \<not> hasStrongMatch ?valid"
    unfolding hasStrongMatch_def list_ex_iff set_eq by blast
  then have "relevance_gate ?valid = Json_message no_match_message"
    by (auto simp: relevance_gate_def)
  with POST_reaches_gate [OF assms(1-6)] show ?thesis by simp
qed

theorem no_confident_match_message_witness:
  "key_present (Some ''sk'') \<and> valid_query (JStr ''verify email addresses'')
   \<and> load_rawTools example_fetched = Inr example_rawTools
   \<and> normalize_tools example_rawTools = Inr example_catalog
   \<and> tools example_catalog \<noteq> []
   \<and> generateObject weak_model
        (prompt string_of (string_of (JStr ''verify email addresses'')) example_catalog) = Inr weak_recs
   \<and> List.map_filter (validate (toolMap example_catalog)) weak_recs
        = [\<lparr> relevance_score = 1 / 5, reasoning = ''weak'', tool = beta_tool \<rparr>]
   \<and> (1 / 5 :: rat) < MIN_RELEVANCE
   \<and> POST string_of (Some ''sk'') (JStr ''verify email addresses'') example_fetched weak_model
        = Json_message no_match_message"
proof -
  have k: "key_present (Some ''sk'')" by simp
  have q: "valid_query (JStr ''verify email addresses'')" by code_simp
  have t: "tools example_catalog \<noteq> []" by (simp add: example_catalog_def)
  have m: "(1 / 5 :: rat) < MIN_RELEVANCE" by (simp add: MIN_RELEVANCE_def)
  have g: "List.map_filter (validate (toolMap example_catalog)) weak_recs = [] \<or>
         \<not> (\<exists>v\<in>set (List.map_filter (validate (toolMap example_catalog)) weak_recs).
               MIN_RELEVANCE \<le> relevance_score v)"
    using m by (simp add: weak_survivors)
  from no_confident_match_message [OF k q example_load example_normalize t weak_generate g]
    k q example_load example_normalize t weak_generate weak_survivors m
  show ?thesis by simp
qed

subsection \<open>C4: one strong match returns the whole list\<close>

text \<open>
  Claim C4. When at least one surviving recommendation has a score of \<open>MIN_RELEVANCE\<close>
  or more, the handler answers with the sorted list of all surviving recommendations:
  the same entries with the same multiplicities, whatever their scores, in falling order
  of score.
\<close>

theorem full_list_when_strong_match:
  assumes "key_present key" and "valid_query query"
    and "load_rawTools fetched = Inr rawTools" and "normalize_tools rawTools = Inr st"
    and "tools st \<noteq> []"
    and "generateObject model (prompt toString (string_of query) st) = Inr recs"
    and "\<exists>v\<in>set (List.map_filter (validate (toolMap st)) recs). MIN_RELEVANCE \<le> relevance_score v"
  shows "\<exists>out. POST toString key query fetched model = Json_recommendations out \<and>
           out = Array_sort by_relevance (List.map_filter (validate (toolMap st)) recs) \<and>
           mset out = mset (List.map_filter (validate (toolMap st)) recs) \<and>
           descending out"
proof -
  let ?survivors = "List.map_filter (validate (toolMap st)) recs"
  let ?valid = "validRecommendations (toolMap st) recs"
  have valid: "?valid = Array_sort by_relevance ?survivors"
    by (simp add: validRecommendations_def)
  have set_eq: "set ?valid = set ?survivors"
    by (simp add: valid set_Array_sort)
  from assms(7) have strong: "hasStrongMatch ?valid"
    unfolding hasStrongMatch_def list_ex_iff set_eq .
  from assms(7) set_eq have "?valid \<noteq> []" by auto
  with strong have "relevance_gate ?valid = Json_recommendations ?valid"
    by (simp add: relevance_gate_def)
  with POST_reaches_gate [OF assms(1-6)]
  have "POST toString key query fetched model = Json_recommendations ?valid" by simp
  then show ?thesis
    by (simp add: valid mset_Array_sort descending_Array_sort)
qed

theorem full_list_when_strong_match_witness:
  "key_present (Some ''sk'') \<and> valid_query (JStr ''verify email addresses'')
   \<and> load_rawTools example_fetched = Inr example_rawTools
   \<and> normalize_tools example_rawTools = Inr example_catalog
   \<and> tools example_catalog \<noteq> []
   \<and> generateObject example_model
        (prompt string_of (string_of (JStr ''verify email addresses'')) example_catalog) = Inr example_recs
   \<and> List.map_filter (validate (toolMap example_catalog)) example_recs
        = [\<lparr> relevance_score = 1 / 5, reasoning = ''weak'', tool = beta_tool \<rparr>,
           \<lparr> relevance_score = 23 / 25, reasoning = ''strong'', tool = acme_tool \<rparr>]
   \<and> MIN_RELEVANCE \<le> (23 / 25 :: rat) \<and> (1 / 5 :: rat) < MIN_RELEVANCE
   \<and> POST string_of (Some ''sk'') (JStr ''verify email addresses'') example_fetched example_model
        = Json_recommendations
            [\<lparr> relevance_score = 23 / 25, reasoning = ''strong'', tool = acme_tool \<rparr>,
             \<lparr> relevance_score = 1 / 5, reasoning = ''weak'', tool = beta_tool \<rparr>]"
proof -
  have k: "key_present (Some ''sk'')" by simp
  have q: "valid_query (JStr ''verify email addresses'')" by code_simp
  have t: "tools example_catalog \<noteq> []" by (simp add: example_catalog_def)
  have m: "MIN_RELEVANCE \<le> (23 / 25 :: rat)" "(1 / 5 :: rat) < MIN_RELEVANCE"
    by (simp_all add: MIN_RELEVANCE_def)
  have g: "\<exists>v\<in>set (List.map_filter (validate (toolMap example_catalog)) example_recs).
               MIN_RELEVANCE \<le> relevance_score v"
    using m by (simp add: example_survivors)
  have s: "Array_sort by_relevance
             [\<lparr> relevance_score = 1 / 5, reasoning = ''weak'', tool = beta_tool \<rparr>,
              \<lparr> relevance_score = 23 / 25, reasoning = ''strong'', tool = acme_tool \<rparr>]
           = [\<lparr> relevance_score = 23 / 25, reasoning = ''strong'', tool = acme_tool \<rparr>,
              \<lparr> relevance_score = 1 / 5, reasoning = ''weak'', tool = beta_tool \<rparr>]"
    by (simp add: Array_sort_def by_relevance_def)
  from full_list_when_strong_match [OF k q example_load example_normalize t example_generate g]
  have "POST string_of (Some ''sk'') (JStr ''verify email addresses'') example_fetched example_model
        = Json_recommendations
            [\<lparr> relevance_score = 23 / 25, reasoning = ''strong'', tool = acme_tool \<rparr>,
             \<lparr> relevance_score = 1 / 5, reasoning = ''weak'', tool = beta_tool \<rparr>]"
    by (simp add: example_survivors s)
  with k q example_load example_normalize t example_generate example_survivors m
  show ?thesis by simp
qed

subsection \<open>C5: a use-cases field that is not text\<close>

text \<open>
  Claim C5 says that a use-cases field that is present but not text gives an empty
  \<^verbatim>\<open>use_cases\<close> and that normalisation never fails. Line 96 tests the field for
  truthiness only and then calls \<^verbatim>\<open>split\<close> on it. For a record with a valid name whose
  \<^verbatim>\<open>use_cases\<close> is an array of strings the call throws a \<^verbatim>\<open>TypeError\<close>, which nothing
  catches: normalisation fails and the request ends with that exception.
\<close>

theorem use_cases_not_text_throws:
  "split_use_cases (JArr [JStr ''sales'', JStr ''email'']) = Inl TypeError
   \<and> normalize_tools array_use_cases_rawTools = Inl TypeError
   \<and> POST toString (Some ''sk'') (JStr ''find leads'')
        (HttpResponse True (Some (JArr array_use_cases_rawTools))) model = Uncaught TypeError"
proof -
  have n: "normalize_tools array_use_cases_rawTools = Inl TypeError" by code_simp
  have l: "load_rawTools (HttpResponse True (Some (JArr array_use_cases_rawTools)))
             = Inr array_use_cases_rawTools"
    by (simp add: load_rawTools_def find_rawTools_def array_use_cases_rawTools_def)
  have q: "valid_query (JStr ''find leads'')" by code_simp
  from n l q show ?thesis by (simp add: POST_def)
qed

subsection \<open>C6: the returned list is sorted by falling score\<close>

text \<open>
  Claim C6. Whenever the handler answers with a recommendation list, each entry of the
  list has a relevance score at least as large as that of the entry after it.
\<close>

theorem final_list_sorted_descending:
  assumes "POST toString key query fetched model = Json_recommendations out"
    and "Suc i < length out"
  shows "relevance_score (out ! Suc i) \<le> relevance_score (out ! i)"
proof -
  from POST_recommendationsD [OF assms(1)]
  obtain st :: catalog and recs where "out = validRecommendations (toolMap st) recs"
    by blast
  then have "descending out"
    by (simp add: validRecommendations_def descending_Array_sort)
  with assms(2) show ?thesis by (simp add: descending_adjacent)
qed

theorem final_list_sorted_descending_witness:
  "POST string_of (Some ''sk'') (JStr ''verify email addresses'') example_fetched example_model
     = Json_recommendations example_out
   \<and> Suc 0 < length example_out
   \<and> relevance_score (example_out ! Suc 0) \<le> relevance_score (example_out ! 0)"
proof -
  have len: "Suc 0 < length example_out" by (simp add: example_out_def)
  from final_list_sorted_descending [OF example_POST len] example_POST len
  show ?thesis by simp
qed

subsection \<open>C7: which array the catalog is taken from\<close>

text \<open>
  Claim C7. The array the handler takes from the document: the document itself when it
  is an array; else the array under \<^verbatim>\<open>tools\<close>; else the array under \<^verbatim>\<open>data\<close>;
  else the first property value, in the object's own order, that is an array; in each
  case the elements are that array's, in order. Where there is no array the handler
  finds nothing. Loading succeeds exactly when an array was found and is not empty, and
  in every other case the request ends with the error
  \<^verbatim>\<open>Failed to load tools list.\<close> and status 500.
\<close>

theorem catalog_extraction_policy:
  "find_rawTools (JArr xs) = Inr xs
   \<and> (map_of ps ''tools'' = Some (JArr xs) \<longrightarrow> find_rawTools (JObj ps) = Inr xs)
   \<and> (\<not> isArray (get_prop (JObj ps) ''tools'') \<and> map_of ps ''data'' = Some (JArr xs)
        \<longrightarrow> find_rawTools (JObj ps) = Inr xs)
   \<and> (\<not> isArray (get_prop (JObj ps) ''tools'') \<and> \<not> isArray (get_prop (JObj ps) ''data'')
        \<and> ps = before @ (k, JArr xs) # after \<and> (\<forall>p\<in>set before. \<not> isArray (snd p))
        \<longrightarrow> find_rawTools (JObj ps) = Inr xs)
   \<and> (\<not> isArray json \<and> (\<forall>qs. json = JObj qs \<longrightarrow> (\<forall>p\<in>set qs. \<not> isArray (snd p)))
        \<longrightarrow> find_rawTools json = Inr [] \<or> find_rawTools json = Inl TypeError)
   \<and> (load_rawTools (HttpResponse True (Some json)) = Inr rawTools
        \<longleftrightarrow> find_rawTools json = Inr rawTools \<and> rawTools \<noteq> [])
   \<and> (key_present key \<and> valid_query query \<and> (\<forall>rawTools. load_rawTools fetched \<noteq> Inr rawTools)
        \<longrightarrow> POST toString key query fetched model = Json_error ''Failed to load tools list.'' 500)"
proof (intro conjI impI)
  show "find_rawTools (JArr xs) = Inr xs"
    by (simp add: find_rawTools_def)
  show "find_rawTools (JObj ps) = Inr xs" if "map_of ps ''tools'' = Some (JArr xs)"
    using that by (simp add: find_rawTools_def)
  show "find_rawTools (JObj ps) = Inr xs"
    if "\<not> isArray (get_prop (JObj ps) ''tools'') \<and> map_of ps ''data'' = Some (JArr xs)"
    using that by (simp add: find_rawTools_def)
  show "find_rawTools (JObj ps) = Inr xs"
    if h: "\<not> isArray (get_prop (JObj ps) ''tools'') \<and> \<not> isArray (get_prop (JObj ps) ''data'')
        \<and> ps = before @ (k, JArr xs) # after \<and> (\<forall>p\<in>set before. \<not> isArray (snd p))"
  proof -
    from h have f: "List.find isArray (map snd ps) = Some (JArr xs)"
      using find_first_array [of before k xs after] by simp
    from h have t: "\<not> isArray (get_prop (JObj ps) ''tools'')"
      and d: "\<not> isArray (get_prop (JObj ps) ''data'')" by blast+
    from f t d show ?thesis by (simp add: find_rawTools_def del: get_prop.simps)
  qed
  show "find_rawTools json = Inr [] \<or> find_rawTools json = Inl TypeError"
    if "\<not> isArray json \<and> (\<forall>qs. json = JObj qs \<longrightarrow> (\<forall>p\<in>set qs. \<not> isArray (snd p)))"
    using that find_rawTools_no_array by blast
  show "load_rawTools (HttpResponse True (Some json)) = Inr rawTools
        \<longleftrightarrow> find_rawTools json = Inr rawTools \<and> rawTools \<noteq> []"
    by (auto simp: load_rawTools_def split: sum.splits)
  show "POST toString key query fetched model = Json_error ''Failed to load tools list.'' 500"
    if "key_present key \<and> valid_query query \<and> (\<forall>rawTools. load_rawTools fetched \<noteq> Inr rawTools)"
    using that by (cases "load_rawTools fetched") (auto simp: POST_def)
qed

theorem catalog_extraction_policy_witness:
  "find_rawTools (JObj [(''count'', JNum 3), (''tools'', JArr example_rawTools)]) = Inr example_rawTools
   \<and> find_rawTools (JObj [(''tools'', JStr ''none''), (''data'', JArr [JNum 1, JNum 2])]) = Inr [JNum 1, JNum 2]
   \<and> find_rawTools (JObj [(''count'', JNum 2), (''items'', JArr [JNum 1, JNum 2]), (''more'', JArr [JNum 3])])
        = Inr [JNum 1, JNum 2]
   \<and> find_rawTools (JObj [(''count'', JNum 2)]) = Inr []
   \<and> load_rawTools (HttpResponse True (Some (JArr [JNum 1, JNum 2]))) = Inr [JNum 1, JNum 2]
   \<and> POST string_of (Some ''sk'') (JStr ''q'') (HttpResponse True (Some (JObj [(''tools'', JArr [])]))) example_model
        = Json_error ''Failed to load tools list.'' 500"
proof -
  note p = catalog_extraction_policy
  have 1: "find_rawTools (JObj [(''count'', JNum 3), (''tools'', JArr example_rawTools)]) = Inr example_rawTools"
    using p [of example_rawTools "[(''count'', JNum 3), (''tools'', JArr example_rawTools)]"]
    by simp
  have 2: "find_rawTools (JObj [(''tools'', JStr ''none''), (''data'', JArr [JNum 1, JNum 2])]) = Inr [JNum 1, JNum 2]"
    using p [of "[JNum 1, JNum 2]" "[(''tools'', JStr ''none''), (''data'', JArr [JNum 1, JNum 2])]"]
    by simp
  have 3: "find_rawTools (JObj [(''count'', JNum 2), (''items'', JArr [JNum 1, JNum 2]), (''more'', JArr [JNum 3])])
        = Inr [JNum 1, JNum 2]"
    using p [of "[JNum 1, JNum 2]"
        "[(''count'', JNum 2), (''items'', JArr [JNum 1, JNum 2]), (''more'', JArr [JNum 3])]"
        "[(''count'', JNum 2)]" "''items''" "[(''more'', JArr [JNum 3])]"]
    by simp
  have "find_rawTools (JObj [(''count'', JNum 2)]) = Inr [] \<or>
        find_rawTools (JObj [(''count'', JNum 2)]) = Inl TypeError"
    using p [where json = "JObj [(''count'', JNum 2)]"] by simp
  moreover have "find_rawTools (JObj [(''count'', JNum 2)]) \<noteq> Inl TypeError"
    by (simp add: find_rawTools_def)
  ultimately have 4: "find_rawTools (JObj [(''count'', JNum 2)]) = Inr []" by blast
  have 5: "load_rawTools (HttpResponse True (Some (JArr [JNum 1, JNum 2]))) = Inr [JNum 1, JNum 2]"
    using p [of "[JNum 1, JNum 2]" _ _ _ _ "JArr [JNum 1, JNum 2]" "[JNum 1, JNum 2]"]
    by simp
  have k: "key_present (Some ''sk'')" by simp
  have q: "valid_query (JStr ''q'')" by code_simp
  have l: "\<forall>rawTools. load_rawTools (HttpResponse True (Some (JObj [(''tools'', JArr [])]))) \<noteq> Inr rawTools"
    by (simp add: load_rawTools_def find_rawTools_def)
  have 6: "POST string_of (Some ''sk'') (JStr ''q'') (HttpResponse True (Some (JObj [(''tools'', JArr [])]))) example_model
        = Json_error ''Failed to load tools list.'' 500"
    using p [where key = "Some ''sk''" and query = "JStr ''q''"
        and fetched = "HttpResponse True (Some (JObj [(''tools'', JArr [])]))"
        and toString = string_of and model = example_model] k q l
    by blast
  from 1 2 3 4 5 6 show ?thesis by blast
qed

subsection \<open>C8: a record that is null\<close>

text \<open>
  Claim C8 says that every record without a usable name is dropped without failing the
  request. A \<^verbatim>\<open>null\<close> element of the catalog array has no name, and line 84 reads a
  property of it: a \<^verbatim>\<open>TypeError\<close> that nothing catches, so the request ends with that
  exception instead of skipping the element.
\<close>

theorem null_record_throws:
  "normalizedTool JNull = Inl TypeError
   \<and> normalize_tools null_record_rawTools = Inl TypeError
   \<and> POST toString (Some ''sk'') (JStr ''find leads'')
        (HttpResponse True (Some (JArr null_record_rawTools))) model = Uncaught TypeError"
proof -
  have n: "normalize_tools null_record_rawTools = Inl TypeError" by code_simp
  have l: "load_rawTools (HttpResponse True (Some (JArr null_record_rawTools)))
             = Inr null_record_rawTools"
    by (simp add: load_rawTools_def find_rawTools_def null_record_rawTools_def)
  have q: "valid_query (JStr ''find leads'')" by code_simp
  from n l q show ?thesis by (simp add: POST_def normalizedTool_def)
qed

subsection \<open>C9: of two records with the same key, the later one is in the map\<close>

text \<open>
  Claim C9. Take two records of the catalog that are both normalised to tools and whose
  trimmed names are equal after lower-casing, with no record of that key after the
  second. Then the lookup map has exactly one entry under the key, and its value is the
  tool normalised from the second record.
\<close>

theorem duplicate_names_last_write_wins:
  assumes "normalize_tools rawTools = Inr st"
    and "rawTools = before @ first # between @ second # after"
    and "normalizedTool first = Inr (Some t1)" and "normalizedTool second = Inr (Some t2)"
    and "toLowerCase (name t1) = toLowerCase (name t2)"
    and "\<forall>r\<in>set after. \<forall>t. normalizedTool r = Inr (Some t) \<longrightarrow>
           toLowerCase (name t) \<noteq> toLowerCase (name t2)"
  shows "map_of (toolMap st) (toLowerCase (name t2)) = Some t2 \<and>
         length (filter (\<lambda>e. fst e = toLowerCase (name t2)) (toolMap st)) = 1"
proof -
  have "kept rawTools = kept (before @ first # between) @ t2 # kept after"
    using kept_append [of "before @ first # between" "second # after"] assms(2,4)
    by (simp add: kept_Cons_Some)
  moreover have "\<forall>y\<in>set (kept after). key_of y \<noteq> key_of t2"
    using assms(6) by (auto simp: set_kept key_of_def)
  ultimately have "map_of (set_all (kept rawTools) []) (key_of t2) = Some t2"
    by (simp add: map_of_set_all_last)
  then have m: "map_of (toolMap st) (toLowerCase (name t2)) = Some t2"
    by (simp add: normalize_tools_InrD(3) [OF assms(1)] key_of_def)
  have "distinct (map fst (toolMap st))"
    by (simp add: normalize_tools_InrD(3) [OF assms(1)] distinct_set_all)
  from one_entry_per_key [OF this m] m show ?thesis by simp
qed

theorem duplicate_names_last_write_wins_witness:
  "normalize_tools duplicate_rawTools = Inr duplicate_catalog
   \<and> normalizedTool (JObj [(''name'', JStr ''Acme''), (''desc'', JStr ''first'')]) = Inr (Some first_acme)
   \<and> normalizedTool (JObj [(''Name'', JStr '' ACME ''), (''desc'', JStr ''second'')]) = Inr (Some second_acme)
   \<and> toLowerCase (name first_acme) = toLowerCase (name second_acme)
   \<and> map_of (toolMap duplicate_catalog) (toLowerCase (name second_acme)) = Some second_acme
   \<and> length (filter (\<lambda>e. fst e = toLowerCase (name second_acme)) (toolMap duplicate_catalog)) = 1"
proof -
  have r: "duplicate_rawTools =
      [] @ JObj [(''name'', JStr ''Acme''), (''desc'', JStr ''first'')] # [JObj [(''id'', JNum 7)]]
         @ JObj [(''Name'', JStr '' ACME ''), (''desc'', JStr ''second'')] # []"
    by (simp add: duplicate_rawTools_def)
  have f: "normalizedTool (JObj [(''name'', JStr ''Acme''), (''desc'', JStr ''first'')]) = Inr (Some first_acme)"
    by code_simp
  have s: "normalizedTool (JObj [(''Name'', JStr '' ACME ''), (''desc'', JStr ''second'')]) = Inr (Some second_acme)"
    by code_simp
  have e: "toLowerCase (name first_acme) = toLowerCase (name second_acme)"
    by code_simp
  have a: "\<forall>r\<in>set []. \<forall>t. normalizedTool r = Inr (Some t) \<longrightarrow>
           toLowerCase (name t) \<noteq> toLowerCase (name second_acme)"
    by simp
  from duplicate_names_last_write_wins [OF duplicate_normalize r f s e a] duplicate_normalize f s e
  show ?thesis by simp
qed

subsection \<open>C10: duplicates collapse in the map only\<close>

text \<open>
  Claim C10. After normalisation the tools list has one entry for each record with a
  valid name, in order, each under its own trimmed name; the names list and the numbered
  list have the same entries, numbered from 1. The prompt carries that numbered list,
  one line per entry, after the line that announces the exact list, and then the tool
  details, one line per tool. The lookup map is never longer than the tools list, and it
  is strictly shorter as soon as two records with valid names share a lower-cased
  trimmed name.
\<close>

theorem duplicates_collapse_only_in_map:
  assumes "normalize_tools rawTools = Inr st"
  shows "length (tools st) = length (filter (\<lambda>r. valid_name (raw_name r)) rawTools)
       \<and> map name (tools st)
           = map (\<lambda>r. trim (string_of (raw_name r))) (filter (\<lambda>r. valid_name (raw_name r)) rawTools)
       \<and> toolNames st = map name (tools st)
       \<and> length (numbered_names (toolNames st)) = length (tools st)
       \<and> (\<forall>i<length (tools st).
            numbered_names (toolNames st) ! i = decimal (i + 1) @ ''. '' @ name (tools st ! i))
       \<and> (\<exists>pre post. prompt toString query st =
            pre @ ''You MUST ONLY recommend tools from this exact list. Use the EXACT tool names as they appear:''
                @ newline @ newline
                @ join newline (numbered_names (toolNames st)) @ newline @ newline
                @ ''Tool details for context:'' @ newline
                @ join newline (tool_details toString (tools st)) @ newline @ post)
       \<and> length (toolMap st) \<le> length (tools st)
       \<and> (\<not> distinct (map (\<lambda>r. toLowerCase (trim (string_of (raw_name r))))
                          (filter (\<lambda>r. valid_name (raw_name r)) rawTools))
            \<longrightarrow> length (toolMap st) < length (tools st))"
proof -
  note d = normalize_tools_InrD [OF assms]
  let ?named = "filter (\<lambda>r. valid_name (raw_name r)) rawTools"
  have names: "map name (tools st) = map (\<lambda>r. trim (string_of (raw_name r))) ?named"
    using names_kept [OF d(4)] by (simp add: d(1))
  have len: "length (tools st) = length ?named"
    using length_kept [OF d(4)] by (simp add: d(1))
  have tn: "toolNames st = map name (tools st)"
    by (simp add: d(1,2))
  have nn: "length (numbered_names (toolNames st)) = length (tools st)"
    by (simp add: numbered_names_def tn)
  have nth: "\<forall>i<length (tools st).
      numbered_names (toolNames st) ! i = decimal (i + 1) @ ''. '' @ name (tools st ! i)"
    by (simp add: nth_numbered_names tn)
  have le: "length (toolMap st) \<le> length (tools st)"
    by (simp add: d(1,3) length_set_all_le)
  have keys: "map key_of (tools st) = map (\<lambda>r. toLowerCase (trim (string_of (raw_name r)))) ?named"
  proof -
    have "map key_of (tools st) = map toLowerCase (map name (tools st))"
      by (simp add: key_of_def)
    then show ?thesis by (simp add: names)
  qed
  have less: "length (toolMap st) < length (tools st)"
    if "\<not> distinct (map (\<lambda>r. toLowerCase (trim (string_of (raw_name r)))) ?named)"
  proof -
    from that keys have "\<not> distinct (map key_of (tools st))" by simp
    from length_set_all_less [OF this] show ?thesis by (simp add: d(1,3))
  qed
  note embedded = prompt_embeds_lists [of toString query st]
  from len names tn nn nth embedded le less show ?thesis by blast
qed

theorem duplicates_collapse_only_in_map_witness:
  "normalize_tools duplicate_rawTools = Inr duplicate_catalog
   \<and> map name (tools duplicate_catalog) = [''Acme'', ''ACME'']
   \<and> numbered_names (toolNames duplicate_catalog) = [''1. Acme'', ''2. ACME'']
   \<and> (\<exists>pre post. prompt string_of ''find leads'' duplicate_catalog =
        pre @ ''You MUST ONLY recommend tools from this exact list. Use the EXACT tool names as they appear:''
            @ newline @ newline
            @ (''1. Acme'' @ newline @ ''2. ACME'') @ newline @ newline
            @ ''Tool details for context:'' @ newline
            @ (''- Acme: first'' @ newline @ ''- ACME: second'') @ newline @ post)
   \<and> length (toolMap duplicate_catalog) = 1
   \<and> length (toolMap duplicate_catalog) < length (tools duplicate_catalog)"
proof -
  have nd: "\<not> distinct (map (\<lambda>r. toLowerCase (trim (string_of (raw_name r))))
                          (filter (\<lambda>r. valid_name (raw_name r)) duplicate_rawTools))"
    by code_simp
  note c10 = duplicates_collapse_only_in_map
      [OF duplicate_normalize, of string_of "''find leads''"]
  from c10 nd
  have "length (toolMap duplicate_catalog) < length (tools duplicate_catalog)" by blast
  moreover from c10
  have "\<exists>pre post. prompt string_of ''find leads'' duplicate_catalog =
        pre @ ''You MUST ONLY recommend tools from this exact list. Use the EXACT tool names as they appear:''
            @ newline @ newline
            @ (''1. Acme'' @ newline @ ''2. ACME'') @ newline @ newline
            @ ''Tool details for context:'' @ newline
            @ (''- Acme: first'' @ newline @ ''- ACME: second'') @ newline @ post"
    unfolding duplicate_lines by blast
  moreover have "map name (tools duplicate_catalog) = [''Acme'', ''ACME'']"
    by code_simp
  moreover have "numbered_names (toolNames duplicate_catalog) = [''1. Acme'', ''2. ACME'']"
    by code_simp
  moreover have "length (toolMap duplicate_catalog) = 1"
    by (simp add: duplicate_catalog_def)
  ultimately show ?thesis using duplicate_normalize by simp
qed

end
